theory Spec2Isabelle
  imports Complex_Main
begin

section \<open>JavaScript values and the sound registry\<close>

text \<open>
  The Controller of live-audio-js keeps its sounds in a plain object literal
  (\<^verbatim>\<open>#sounds = {}\<close>) and tests what it reads from it for truthiness
  (\<^verbatim>\<open>if (sound)\<close>, \<^verbatim>\<open>if (this.#sounds[name])\<close>). The values are therefore modelled
  with the distinctions the Controller observes: whether a value is truthy, and whether it
  is an object exposing \<^verbatim>\<open>play\<close>/\<^verbatim>\<open>stop\<close>. Objects are held by reference.
\<close>

datatype jsval =
    JUndefined
  | JNull
  | JBool bool
  | JNum real
  | JNaN
  | JStr string
  | JSound nat      \<comment> \<open>an object with the Sound capability (\<^verbatim>\<open>play\<close>, \<^verbatim>\<open>stop\<close>)\<close>
  | JObject nat     \<comment> \<open>any other object or function\<close>
  | JBuiltin string \<comment> \<open>what \<^verbatim>\<open>Object.prototype\<close> provides under that name\<close>

fun truthy :: "jsval \<Rightarrow> bool" where
  "truthy JUndefined = False"
| "truthy JNull = False"
| "truthy (JBool b) = b"
| "truthy (JNum r) = (r \<noteq> 0)"
| "truthy JNaN = False"
| "truthy (JStr s) = (s \<noteq> [])"
| "truthy (JSound r) = True"
| "truthy (JObject r) = True"
| "truthy (JBuiltin n) = True"

fun is_object :: "jsval \<Rightarrow> bool" where
  "is_object (JSound r) = True"
| "is_object (JObject r) = True"
| "is_object (JBuiltin n) = True"
| "is_object v = False"

text \<open>
  An object literal inherits from \<^verbatim>\<open>Object.prototype\<close>, so \<^verbatim>\<open>obj[name]\<close> finds the
  properties of the prototype when \<^verbatim>\<open>obj\<close> has no own property \<^verbatim>\<open>name\<close>. Assigning to
  \<^verbatim>\<open>obj['__proto__']\<close> runs the inherited setter: it replaces the prototype when given
  an object or \<^verbatim>\<open>null\<close> and creates no own property. An object whose prototype is
  \<^verbatim>\<open>null\<close> inherits no setter, so the assignment creates an own property there; an
  object that replaced the prototype is taken to inherit the setter and to define no
  setter of its own for the names assigned.
\<close>

definition object_prototype_names :: "string list" where
  "object_prototype_names =
     [''constructor'', ''__defineGetter__'', ''__defineSetter__'', ''hasOwnProperty'',
      ''__lookupGetter__'', ''__lookupSetter__'', ''isPrototypeOf'',
      ''propertyIsEnumerable'', ''toString'', ''valueOf'', ''__proto__'',
      ''toLocaleString'']"

datatype prototype = Object_prototype | Replaced jsval

record js_object =
  own :: "(string \<times> jsval) list"   \<comment> \<open>own properties, in insertion order\<close>
  proto :: prototype

definition empty_object :: js_object where
  "empty_object = \<lparr>own = [], proto = Object_prototype\<rparr>"

text \<open>
  What a replaced prototype provides depends on an object the Controller does not own;
  its property lookup is a parameter \<open>foreign\<close> of the registry operations.
\<close>

fun inherited :: "(jsval \<Rightarrow> string \<Rightarrow> jsval) \<Rightarrow> prototype \<Rightarrow> string \<Rightarrow> jsval" where
  "inherited foreign Object_prototype name =
     (if name \<in> set object_prototype_names then JBuiltin name else JUndefined)"
| "inherited foreign (Replaced JNull) name = JUndefined"
| "inherited foreign (Replaced v) name = foreign v name"

definition get_property :: "(jsval \<Rightarrow> string \<Rightarrow> jsval) \<Rightarrow> js_object \<Rightarrow> string \<Rightarrow> jsval" where
  "get_property foreign obj name =
     (case map_of (own obj) name of
        Some v \<Rightarrow> v
      | None \<Rightarrow> inherited foreign (proto obj) name)"

fun put_own :: "string \<Rightarrow> jsval \<Rightarrow> (string \<times> jsval) list \<Rightarrow> (string \<times> jsval) list" where
  "put_own name v [] = [(name, v)]"
| "put_own name v ((k, u) # ps) =
     (if k = name then (k, v) # ps else (k, u) # put_own name v ps)"

definition set_property :: "js_object \<Rightarrow> string \<Rightarrow> jsval \<Rightarrow> js_object" where
  "set_property obj name v =
     (if map_of (own obj) name = None \<and> name = ''__proto__'' \<and> proto obj \<noteq> Replaced JNull
      then (if is_object v \<or> v = JNull then obj\<lparr>proto := Replaced v\<rparr> else obj)
      else obj\<lparr>own := put_own name v (own obj)\<rparr>)"

definition delete_property :: "js_object \<Rightarrow> string \<Rightarrow> js_object" where
  "delete_property obj name = obj\<lparr>own := filter (\<lambda>p. fst p \<noteq> name) (own obj)\<rparr>"

text \<open>
  \<^verbatim>\<open>Object.keys\<close> lists the own property names: first the array indices (canonical
  decimal numerals below \<open>2^32 - 1\<close>) in ascending order, then the other names in
  insertion order.
\<close>

definition is_digit :: "char \<Rightarrow> bool" where
  "is_digit c = (48 \<le> (of_char c :: nat) \<and> (of_char c :: nat) \<le> 57)"

definition decimal_value :: "string \<Rightarrow> nat" where
  "decimal_value s = foldl (\<lambda>n c. 10 * n + ((of_char c :: nat) - 48)) 0 s"

definition is_array_index :: "string \<Rightarrow> bool" where
  "is_array_index s =
     (s \<noteq> [] \<and> list_all is_digit s \<and> (s = ''0'' \<or> hd s \<noteq> CHR ''0'')
      \<and> decimal_value s < 4294967295)"

definition object_keys :: "js_object \<Rightarrow> string list" where
  "object_keys obj =
     sort_key decimal_value (filter is_array_index (map fst (own obj)))
     @ filter (\<lambda>k. \<not> is_array_index k) (map fst (own obj))"


section \<open>The world of a Controller\<close>

datatype audio_state = Running | Suspended | Closed

datatype error = TypeError | ConstructorError | ResumeError

text \<open>
  The platform behind \<^verbatim>\<open>window\<close>: what \<^verbatim>\<open>window.AudioContext || window.webkitAudioContext\<close>
  is, and how the promise of \<^verbatim>\<open>audioContext.resume()\<close> settles.
\<close>

datatype constructor_behaviour =
    Ctor_undefined                \<comment> \<open>neither property is defined: \<^verbatim>\<open>new undefined(...)\<close>\<close>
  | Ctor_throws                   \<comment> \<open>the constructor raises\<close>
  | Ctor_creates audio_state      \<comment> \<open>a new context in the given state\<close>

datatype settlement = Fulfils | Rejects | Never_settles

record platform =
  AudioContext :: constructor_behaviour
  resume :: settlement

datatype event =
    Context_requested             \<comment> \<open>a call of \<^verbatim>\<open>getSharedAudioContext\<close>\<close>
  | Context_created nat
  | Console_log nat               \<comment> \<open>"Live Audio Context created ..."\<close>
  | Output_created nat
  | Console_warn string
  | Sound_played nat nat          \<comment> \<open>\<^verbatim>\<open>sound.play(output)\<close>\<close>
  | Output_disposed nat           \<comment> \<open>\<^verbatim>\<open>onOutputDisposed(controller, output)\<close>\<close>

text \<open>
  Modelled from the spec: the class \<^verbatim>\<open>Output\<close> (\<^verbatim>\<open>Output.js\<close> is imported by the
  Controller but is not among the sources). It wraps a processing context with a master
  gain stage and an optional analysis tap; \<^verbatim>\<open>setVolume\<close> passes the value through to
  the gain parameter, \<^verbatim>\<open>connectAnalysis\<close> replaces any prior attachment.
\<close>

record Output =
  out_context :: nat
  gain_value :: real
  attachment :: jsval

definition new_Output :: "nat \<Rightarrow> Output" where
  "new_Output audioContext = \<lparr>out_context = audioContext, gain_value = 1, attachment = JNull\<rparr>"

definition Output_setVolume :: "real \<Rightarrow> Output \<Rightarrow> Output" where
  "Output_setVolume v out = out\<lparr>gain_value := v\<rparr>"

definition Output_connectAnalysis :: "jsval \<Rightarrow> Output \<Rightarrow> Output" where
  "Output_connectAnalysis node out = out\<lparr>attachment := node\<rparr>"

text \<open>The private fields of \<^verbatim>\<open>class Controller\<close>, with their initialisers.\<close>

record Controller =
  audioContext_ref :: "nat option" \<comment> \<open>\<^verbatim>\<open>#audioContext\<close>, never assigned\<close>
  output_ref :: "nat option"      \<comment> \<open>\<^verbatim>\<open>#output\<close>, a reference into \<open>outputs\<close>\<close>
  analysis :: jsval
  sounds :: js_object
  volume :: real                  \<comment> \<open>\<^verbatim>\<open>#volume\<close>, a finite number\<close>

text \<open>
  The world holds the Controller, the slot \<^verbatim>\<open>window['_liveAudioContext']\<close> of its
  window, the contexts and Outputs allocated so far, and the trace of observable calls.
\<close>

record world =
  ctl :: Controller
  liveAudioContext :: "nat option"
  context_state :: "nat \<Rightarrow> audio_state"
  contexts_created :: nat
  outputs :: "Output list"
  foreign :: "jsval \<Rightarrow> string \<Rightarrow> jsval"
  trace :: "event list"

definition new_Controller :: "world \<Rightarrow> world" where
  "new_Controller w =
     w\<lparr>ctl := \<lparr>audioContext_ref = None, output_ref = None, analysis = JNull,
               sounds = empty_object, volume = 1.0\<rparr>\<rparr>"

definition listSounds :: "world \<Rightarrow> string list" where
  "listSounds w = object_keys (sounds (ctl w))"


definition getSound :: "string \<Rightarrow> world \<Rightarrow> jsval" where
  "getSound name w = get_property (foreign w) (sounds (ctl w)) name"

definition addSound :: "string \<Rightarrow> jsval \<Rightarrow> world \<Rightarrow> jsval \<times> world" where
  "addSound name v w =
     (v, w\<lparr>ctl := (ctl w)\<lparr>sounds := set_property (sounds (ctl w)) name v\<rparr>\<rparr>)"

definition removeSound :: "string \<Rightarrow> world \<Rightarrow> bool \<times> world" where
  "removeSound name w =
     (if truthy (get_property (foreign w) (sounds (ctl w)) name)
      then (True, w\<lparr>ctl := (ctl w)\<lparr>sounds := delete_property (sounds (ctl w)) name\<rparr>\<rparr>)
      else (False, w))"


section \<open>Acquiring the Output\<close>

text \<open>
  The two revisions of \<^verbatim>\<open>Controller.js\<close> among the sources differ in \<^verbatim>\<open>acquireOutput\<close>
  only by the re-attachment of the analysis node, which the second one adds.
\<close>

datatype revision = Controller_js | Part_000

text \<open>
  An \<^verbatim>\<open>async\<close> function runs until its first \<^verbatim>\<open>await\<close> when it is called and
  continues in later turns of the event loop. The promise of \<^verbatim>\<open>getSharedAudioContext\<close>
  is either still waiting for \<^verbatim>\<open>audioContext.resume()\<close> on a context it has created,
  or settled.
\<close>

datatype 'a promise = Waiting_resume nat | Fulfilled 'a | Rejected error

definition store_context :: "nat \<Rightarrow> world \<Rightarrow> nat option promise \<times> world" where
  "store_context c w =
     (Fulfilled (Some c),
      w\<lparr>liveAudioContext := Some c, trace := trace w @ [Console_log c]\<rparr>)"

definition getSharedAudioContext :: "platform \<Rightarrow> world \<Rightarrow> nat option promise \<times> world" where
  "getSharedAudioContext p w =
     (let audioContext = liveAudioContext w in
      if audioContext = None \<or> map_option (context_state w) audioContext = Some Closed
      then (case AudioContext p of
              Ctor_undefined \<Rightarrow> (Rejected TypeError, w)
            | Ctor_throws \<Rightarrow> (Rejected ConstructorError, w)
            | Ctor_creates st \<Rightarrow>
                (let c = contexts_created w;
                     w1 = w\<lparr>context_state := (context_state w)(c := st),
                            contexts_created := Suc c,
                            trace := trace w @ [Context_created c]\<rparr>
                 in if st = Suspended then (Waiting_resume c, w1) else store_context c w1))
      else (Fulfilled audioContext, w))"

definition getSharedAudioContext_resumed ::
  "platform \<Rightarrow> nat \<Rightarrow> world \<Rightarrow> nat option promise \<times> world" where
  "getSharedAudioContext_resumed p c w =
     (case resume p of
        Fulfils \<Rightarrow> store_context c (w\<lparr>context_state := (context_state w)(c := Running)\<rparr>)
      | Rejects \<Rightarrow> (Rejected ResumeError, w)
      | Never_settles \<Rightarrow> (Waiting_resume c, w))"

definition update_output :: "nat \<Rightarrow> (Output \<Rightarrow> Output) \<Rightarrow> world \<Rightarrow> world" where
  "update_output out f w =
     (if out < length (outputs w) then w\<lparr>outputs := (outputs w)[out := f (outputs w ! out)]\<rparr>
      else w)"

definition get_output :: "world \<Rightarrow> nat \<Rightarrow> Output option" where
  "get_output w out = (if out < length (outputs w) then Some (outputs w ! out) else None)"

text \<open>
  A call of \<^verbatim>\<open>acquireOutput\<close> is suspended at \<^verbatim>\<open>await getSharedAudioContext(...)\<close>
  or has settled: resolved with an Output (or \<^verbatim>\<open>null\<close>), or rejected.
\<close>

datatype acquisition = Awaiting "nat option promise" | Resolved "nat option" | Failed error

definition acquireOutput_call :: "platform \<Rightarrow> world \<Rightarrow> acquisition \<times> world" where
  "acquireOutput_call p w =
     (let out = output_ref (ctl w) in
      if out = None
      then (let (pr, w1) = getSharedAudioContext p (w\<lparr>trace := trace w @ [Context_requested]\<rparr>)
            in (Awaiting pr, w1))
      else (Resolved out, w))"

definition acquireOutput_continue ::
  "revision \<Rightarrow> nat option \<Rightarrow> world \<Rightarrow> acquisition \<times> world" where
  "acquireOutput_continue rv audioContext w =
     (case audioContext of
        None \<Rightarrow> (Resolved None, w)
      | Some c \<Rightarrow>
          (let out = length (outputs w);
               w1 = w\<lparr>outputs := outputs w @ [new_Output c],
                      ctl := (ctl w)\<lparr>output_ref := Some out\<rparr>,
                      trace := trace w @ [Output_created out]\<rparr>;
               w2 = update_output out (Output_setVolume (volume (ctl w1))) w1;
               w3 = (if rv = Part_000 \<and> truthy (analysis (ctl w2))
                     then update_output out (Output_connectAnalysis (analysis (ctl w2))) w2
                     else w2)
           in (Resolved (Some out), w3)))"

fun acquireOutput_step ::
  "revision \<Rightarrow> platform \<Rightarrow> acquisition \<Rightarrow> world \<Rightarrow> acquisition \<times> world" where
  "acquireOutput_step rv p (Awaiting (Waiting_resume c)) w =
     (let (pr, w1) = getSharedAudioContext_resumed p c w in (Awaiting pr, w1))"
| "acquireOutput_step rv p (Awaiting (Rejected e)) w = (Failed e, w)"
| "acquireOutput_step rv p (Awaiting (Fulfilled audioContext)) w =
     acquireOutput_continue rv audioContext w"
| "acquireOutput_step rv p (Resolved out) w = (Resolved out, w)"
| "acquireOutput_step rv p (Failed e) w = (Failed e, w)"

text \<open>
  The result of an operation that runs with nothing else interleaved: it returns, raises,
  or stays pending for ever (when \<^verbatim>\<open>resume()\<close> never settles).
\<close>

datatype 'a outcome = Returned 'a | Raised error | Pending

fun outcome_of :: "acquisition \<Rightarrow> nat option outcome" where
  "outcome_of (Awaiting pr) = Pending"
| "outcome_of (Resolved out) = Returned out"
| "outcome_of (Failed e) = Raised e"

fun advance ::
  "revision \<Rightarrow> platform \<Rightarrow> nat \<Rightarrow> acquisition \<times> world \<Rightarrow> acquisition \<times> world" where
  "advance rv p 0 cfg = cfg"
| "advance rv p (Suc n) (a, w) = advance rv p n (acquireOutput_step rv p a w)"

text \<open>
  Run alone, a call needs at most two further turns: one for \<^verbatim>\<open>resume()\<close>, one for the
  continuation of \<^verbatim>\<open>acquireOutput\<close>.
\<close>

definition acquireOutput :: "revision \<Rightarrow> platform \<Rightarrow> world \<Rightarrow> nat option outcome \<times> world" where
  "acquireOutput rv p w =
     (let (a0, w0) = acquireOutput_call p w;
          (a1, w1) = acquireOutput_step rv p a0 w0;
          (a2, w2) = acquireOutput_step rv p a1 w1
      in (outcome_of a2, w2))"

fun acquireOutput_repeatedly ::
  "revision \<Rightarrow> platform list \<Rightarrow> world \<Rightarrow> nat option outcome list \<times> world" where
  "acquireOutput_repeatedly rv [] w = ([], w)"
| "acquireOutput_repeatedly rv (p # ps) w =
     (let (r, w1) = acquireOutput rv p w;
          (rs, w2) = acquireOutput_repeatedly rv ps w1
      in (r # rs, w2))"

text \<open>
  Two calls in flight: each turn of the event loop continues one of them.
\<close>

datatype turn = First | Second

fun interleave ::
  "revision \<Rightarrow> platform \<Rightarrow> turn list \<Rightarrow> acquisition \<times> acquisition \<times> world
     \<Rightarrow> acquisition \<times> acquisition \<times> world" where
  "interleave rv p [] cfg = cfg"
| "interleave rv p (First # ts) (a1, a2, w) =
     (let (a1', w') = acquireOutput_step rv p a1 w in interleave rv p ts (a1', a2, w'))"
| "interleave rv p (Second # ts) (a1, a2, w) =
     (let (a2', w') = acquireOutput_step rv p a2 w in interleave rv p ts (a1, a2', w'))"

definition requests :: "world \<Rightarrow> nat" where
  "requests w = length (filter (\<lambda>e. e = Context_requested) (trace w))"

text \<open>Two calls issued back to back, followed by the given turns.\<close>

definition two_calls ::
  "revision \<Rightarrow> platform \<Rightarrow> turn list \<Rightarrow> world \<Rightarrow> acquisition \<times> acquisition \<times> world" where
  "two_calls rv p ts w =
     (let (a1, w1) = acquireOutput_call p w;
          (a2, w2) = acquireOutput_call p w1
      in interleave rv p ts (a1, a2, w2))"

text \<open>
  The invariant of two calls in flight, for \<open>l\<close> Outputs at the start: every call that
  has resolved to an Output has constructed one, and no two resolved to the same.
\<close>

fun resolved_ref :: "acquisition \<Rightarrow> nat option" where
  "resolved_ref (Resolved r) = r"
| "resolved_ref a = None"

fun constructed :: "acquisition \<Rightarrow> nat" where
  "constructed (Resolved (Some out)) = 1"
| "constructed a = 0"

definition race_inv :: "nat \<Rightarrow> acquisition \<times> acquisition \<times> world \<Rightarrow> bool" where
  "race_inv l cfg =
     (case cfg of (a1, a2, w) \<Rightarrow>
        a1 \<noteq> Awaiting (Fulfilled None) \<and> a2 \<noteq> Awaiting (Fulfilled None)
        \<and> length (outputs w) = l + constructed a1 + constructed a2
        \<and> (case resolved_ref a1 of Some o1 \<Rightarrow> o1 < length (outputs w) | None \<Rightarrow> True)
        \<and> (case resolved_ref a2 of Some o2 \<Rightarrow> o2 < length (outputs w) | None \<Rightarrow> True)
        \<and> (case (resolved_ref a1, resolved_ref a2) of
              (Some o1, Some o2) \<Rightarrow> o1 \<noteq> o2 | _ \<Rightarrow> True))"


section \<open>Operations that depend on the Output\<close>

definition not_found :: "string \<Rightarrow> string" where
  "not_found name = ''Sound '' @ [CHR 0x27] @ name @ [CHR 0x27] @ '' not found''"

text \<open>
  Modelled from the spec: the Sound capability (\<^verbatim>\<open>Sound.js\<close> is imported by the
  Controller but is not among the sources). A Sound is told to play against an Output;
  the call is recorded, what the Sound does with the Output is its own business. A value
  without a \<^verbatim>\<open>play\<close> method cannot be called: \<^verbatim>\<open>sound.play is not a function\<close>.
\<close>

fun Sound_play :: "jsval \<Rightarrow> nat \<Rightarrow> world \<Rightarrow> unit outcome \<times> world" where
  "Sound_play (JSound s) out w = (Returned (), w\<lparr>trace := trace w @ [Sound_played s out]\<rparr>)"
| "Sound_play v out w = (Raised TypeError, w)"

definition playSound :: "revision \<Rightarrow> platform \<Rightarrow> string \<Rightarrow> world \<Rightarrow> unit outcome \<times> world" where
  "playSound rv p name w =
     (if volume (ctl w) \<le> 0 then (Returned (), w)
      else (let sound = get_property (foreign w) (sounds (ctl w)) name in
            if truthy sound
            then (case acquireOutput rv p w of
                    (Returned None, w1) \<Rightarrow> (Returned (), w1)
                  | (Returned (Some out), w1) \<Rightarrow> Sound_play sound out w1
                  | (Raised e, w1) \<Rightarrow> (Raised e, w1)
                  | (Pending, w1) \<Rightarrow> (Pending, w1))
            else (Returned (), w\<lparr>trace := trace w @ [Console_warn (not_found name)]\<rparr>)))"

definition setVolume :: "revision \<Rightarrow> platform \<Rightarrow> real \<Rightarrow> world \<Rightarrow> unit outcome \<times> world" where
  "setVolume rv p v w =
     (let w1 = w\<lparr>ctl := (ctl w)\<lparr>volume := v\<rparr>\<rparr> in
      case acquireOutput rv p w1 of
        (Returned None, w2) \<Rightarrow> (Returned (), w2)
      | (Returned (Some out), w2) \<Rightarrow> (Returned (), update_output out (Output_setVolume v) w2)
      | (Raised e, w2) \<Rightarrow> (Raised e, w2)
      | (Pending, w2) \<Rightarrow> (Pending, w2))"

text \<open>The setter \<^verbatim>\<open>set analysis(analysisNode)\<close> of the second revision.\<close>

definition set_analysis :: "jsval \<Rightarrow> world \<Rightarrow> world" where
  "set_analysis analysisNode w =
     (let w1 = w\<lparr>ctl := (ctl w)\<lparr>analysis := analysisNode\<rparr>\<rparr> in
      case output_ref (ctl w1) of
        Some out \<Rightarrow> update_output out (Output_connectAnalysis (analysis (ctl w1))) w1
      | None \<Rightarrow> w1)"


text \<open>
  Operations of the Controller issued one after another, each run to its end before the
  next is issued; \<open>perform\<close> keeps the world an operation leaves, whatever it returns or
  raises. The first revision has no setter for \<^verbatim>\<open>analysis\<close>: assigning to the
  getter-only accessor leaves the Controller as it is.
\<close>

datatype request =
    AcquireOutput
  | AddSound string jsval
  | RemoveSound string
  | PlaySound string
  | SetVolume real
  | SetAnalysis jsval

fun perform :: "revision \<Rightarrow> platform \<Rightarrow> request \<Rightarrow> world \<Rightarrow> world" where
  "perform rv p AcquireOutput w = snd (acquireOutput rv p w)"
| "perform rv p (AddSound name v) w = snd (addSound name v w)"
| "perform rv p (RemoveSound name) w = snd (removeSound name w)"
| "perform rv p (PlaySound name) w = snd (playSound rv p name w)"
| "perform rv p (SetVolume v) w = snd (setVolume rv p v w)"
| "perform rv p (SetAnalysis node) w = (if rv = Part_000 then set_analysis node w else w)"

fun perform_all :: "revision \<Rightarrow> (platform \<times> request) list \<Rightarrow> world \<Rightarrow> world" where
  "perform_all rv [] w = w"
| "perform_all rv ((p, r) # rs) w = perform_all rv rs (perform rv p r w)"


text \<open>
  Modelled from the spec: \<^verbatim>\<open>dispose()\<close> and the optional lifecycle callback
  \<^verbatim>\<open>onOutputDisposed\<close>, which the test-suite calls but neither revision of
  \<^verbatim>\<open>Controller.js\<close> among the sources defines. If an Output exists, the callback (if
  registered) is invoked with it, then the Output reference is released; the first
  argument says whether a callback is registered.
\<close>

definition dispose :: "bool \<Rightarrow> world \<Rightarrow> unit outcome \<times> world" where
  "dispose onOutputDisposed w =
     (case output_ref (ctl w) of
        None \<Rightarrow> (Returned (), w)
      | Some out \<Rightarrow>
          (let w1 = (if onOutputDisposed then w\<lparr>trace := trace w @ [Output_disposed out]\<rparr>
                     else w)
           in (Returned (), w1\<lparr>ctl := (ctl w1)\<lparr>output_ref := None\<rparr>\<rparr>)))"

fun is_disposal :: "event \<Rightarrow> bool" where
  "is_disposal (Output_disposed out) = True"
| "is_disposal e = False"

definition disposals :: "world \<Rightarrow> nat" where
  "disposals w = length (filter is_disposal (trace w))"


section \<open>Concrete worlds and platforms\<close>

text \<open>A window that holds no context yet, with a newly constructed Controller.\<close>

definition pristine :: world where
  "pristine =
     new_Controller
       \<lparr>ctl = \<lparr>audioContext_ref = None, output_ref = None, analysis = JNull,
                sounds = empty_object, volume = 0\<rparr>,
        liveAudioContext = None, context_state = (\<lambda>c. Suspended), contexts_created = 0,
        outputs = [], foreign = (\<lambda>v name. JUndefined), trace = []\<rparr>"

text \<open>The \<^verbatim>\<open>MockAudioContext\<close> of the test-suite starts running.\<close>

definition test_mock :: platform where
  "test_mock = \<lparr>AudioContext = Ctor_creates Running, resume = Fulfils\<rparr>"

text \<open>A browser that creates contexts suspended and resumes them.\<close>

definition browser :: platform where
  "browser = \<lparr>AudioContext = Ctor_creates Suspended, resume = Fulfils\<rparr>"

text \<open>A browser whose \<^verbatim>\<open>resume()\<close> is rejected.\<close>

definition blocked :: platform where
  "blocked = \<lparr>AudioContext = Ctor_creates Suspended, resume = Rejects\<rparr>"

text \<open>A window without \<^verbatim>\<open>AudioContext\<close> and \<^verbatim>\<open>webkitAudioContext\<close>.\<close>

definition no_web_audio :: platform where
  "no_web_audio = \<lparr>AudioContext = Ctor_undefined, resume = Fulfils\<rparr>"


text \<open>
  A race in a browser: the first call waits for \<^verbatim>\<open>resume()\<close> on the context it
  created, the second is issued at once and creates a context of its own; then both are
  resumed and both continue, the first call first.
\<close>

definition first_pending :: "acquisition \<times> world" where
  "first_pending = advance Part_000 browser 0 (acquireOutput_call browser pristine)"

definition second_issued :: "acquisition \<times> world" where
  "second_issued = acquireOutput_call browser (snd first_pending)"

definition race_end :: "acquisition \<times> acquisition \<times> world" where
  "race_end =
     interleave Part_000 browser [First, Second, First, Second]
       (fst first_pending, second_issued)"


text \<open>A session of operations on changing platforms.\<close>

definition session :: "(platform \<times> request) list" where
  "session =
     [(browser, AddSound ''coin'' (JSound 7)), (no_web_audio, SetVolume (1/2)),
      (blocked, PlaySound ''coin''), (browser, SetAnalysis (JObject 5)),
      (test_mock, RemoveSound ''coin''), (browser, AcquireOutput)]"


section \<open>Frame lemmas for the acquisition\<close>

lemma getSharedAudioContext_frame:
  assumes "getSharedAudioContext p w = (pr, w')"
  shows "ctl w' = ctl w \<and> outputs w' = outputs w \<and> foreign w' = foreign w
         \<and> pr \<noteq> Fulfilled None \<and> requests w' = requests w"
  using assms
  by (auto simp: getSharedAudioContext_def store_context_def Let_def requests_def
           split: if_splits constructor_behaviour.splits)

lemma getSharedAudioContext_resumed_frame:
  assumes "getSharedAudioContext_resumed p c w = (pr, w')"
  shows "ctl w' = ctl w \<and> outputs w' = outputs w \<and> foreign w' = foreign w
         \<and> pr \<noteq> Fulfilled None \<and> requests w' = requests w"
  using assms
  by (auto simp: getSharedAudioContext_resumed_def store_context_def requests_def
           split: settlement.splits)

lemma acquireOutput_call_fresh:
  assumes "output_ref (ctl w) = None" and "acquireOutput_call p w = (a, w')"
  shows "\<exists>pr. a = Awaiting pr \<and> pr \<noteq> Fulfilled None"
    and "ctl w' = ctl w" and "outputs w' = outputs w" and "foreign w' = foreign w"
    and "requests w' = Suc (requests w)"
proof -
  let ?w = "w\<lparr>trace := trace w @ [Context_requested]\<rparr>"
  obtain pr w1 where g: "getSharedAudioContext p ?w = (pr, w1)"
    by (cases "getSharedAudioContext p ?w")
  with assms have a: "a = Awaiting pr" "w' = w1" by (simp_all add: acquireOutput_call_def)
  from getSharedAudioContext_frame[OF g] a
  show "\<exists>pr. a = Awaiting pr \<and> pr \<noteq> Fulfilled None" "ctl w' = ctl w" "outputs w' = outputs w"
    "foreign w' = foreign w" "requests w' = Suc (requests w)"
    by (simp_all add: requests_def)
qed

lemma acquireOutput_continue_Some:
  assumes "acquireOutput_continue rv (Some c) w = (a, w')"
  shows "a = Resolved (Some (length (outputs w)))"
    and "output_ref (ctl w') = Some (length (outputs w))"
    and "volume (ctl w') = volume (ctl w)"
    and "analysis (ctl w') = analysis (ctl w)"
    and "sounds (ctl w') = sounds (ctl w)"
    and "length (outputs w') = Suc (length (outputs w))"
    and "gain_value (outputs w' ! length (outputs w)) = volume (ctl w)"
    and "requests w' = requests w"
  using assms
  by (auto simp: acquireOutput_continue_def Let_def update_output_def Output_setVolume_def
        Output_connectAnalysis_def new_Output_def requests_def nth_append)

text \<open>
  One turn of a pending call: it stays pending, fails, or constructs the Output at the
  next free reference and stores it in \<^verbatim>\<open>#output\<close>.
\<close>

lemma acquireOutput_step_pending:
  assumes "acquireOutput_step rv p (Awaiting pr) w = (a, w')" and "pr \<noteq> Fulfilled None"
  shows "(\<exists>pr'. a = Awaiting pr' \<and> pr' \<noteq> Fulfilled None \<and> ctl w' = ctl w
              \<and> outputs w' = outputs w \<and> foreign w' = foreign w \<and> requests w' = requests w)
         \<or> (\<exists>e. a = Failed e \<and> w' = w)
         \<or> (a = Resolved (Some (length (outputs w)))
              \<and> output_ref (ctl w') = Some (length (outputs w))
              \<and> volume (ctl w') = volume (ctl w)
              \<and> analysis (ctl w') = analysis (ctl w)
              \<and> sounds (ctl w') = sounds (ctl w)
              \<and> length (outputs w') = Suc (length (outputs w))
              \<and> gain_value (outputs w' ! length (outputs w)) = volume (ctl w)
              \<and> requests w' = requests w)"
proof (cases pr)
  case (Waiting_resume c)
  obtain pr1 w1 where g: "getSharedAudioContext_resumed p c w = (pr1, w1)"
    by (cases "getSharedAudioContext_resumed p c w")
  with assms Waiting_resume have "a = Awaiting pr1" "w' = w1" by simp_all
  with getSharedAudioContext_resumed_frame[OF g] show ?thesis by simp
next
  case (Fulfilled x)
  with assms obtain c where x: "x = Some c" by (cases x) auto
  with assms Fulfilled have "acquireOutput_continue rv (Some c) w = (a, w')" by simp
  from acquireOutput_continue_Some[OF this] show ?thesis by simp
next
  case (Rejected e)
  with assms show ?thesis by auto
qed

lemma acquireOutput_existing:
  "output_ref (ctl w) = Some out \<Longrightarrow> acquireOutput rv p w = (Returned (Some out), w)"
  by (simp add: acquireOutput_def acquireOutput_call_def)

text \<open>
  The three ways a call run alone can end: the Output existed; no Output and the call
  fails or stays pending, leaving the Controller as it was; no Output and a new one is
  constructed with the stored volume.
\<close>

lemma acquireOutput_cases:
  assumes "acquireOutput rv p w = (r, w')"
  shows "(\<exists>out. output_ref (ctl w) = Some out \<and> r = Returned (Some out) \<and> w' = w)
       \<or> (output_ref (ctl w) = None \<and> (r = Pending \<or> (\<exists>e. r = Raised e))
            \<and> ctl w' = ctl w \<and> outputs w' = outputs w \<and> foreign w' = foreign w
            \<and> requests w' = Suc (requests w))
       \<or> (output_ref (ctl w) = None \<and> r = Returned (Some (length (outputs w)))
            \<and> output_ref (ctl w') = Some (length (outputs w))
            \<and> volume (ctl w') = volume (ctl w)
            \<and> analysis (ctl w') = analysis (ctl w)
            \<and> sounds (ctl w') = sounds (ctl w)
            \<and> length (outputs w') = Suc (length (outputs w))
            \<and> gain_value (outputs w' ! length (outputs w)) = volume (ctl w)
            \<and> requests w' = Suc (requests w))"
proof (cases "output_ref (ctl w)")
  case (Some out)
  with assms acquireOutput_existing[OF Some, of rv p] show ?thesis by simp
next
  case None
  obtain a0 w0 where c: "acquireOutput_call p w = (a0, w0)" by (cases "acquireOutput_call p w")
  obtain a1 w1 where s1: "acquireOutput_step rv p a0 w0 = (a1, w1)"
    by (cases "acquireOutput_step rv p a0 w0")
  obtain a2 w2 where s2: "acquireOutput_step rv p a1 w1 = (a2, w2)"
    by (cases "acquireOutput_step rv p a1 w1")
  from assms c s1 s2 have r: "r = outcome_of a2" "w' = w2"
    by (simp_all add: acquireOutput_def)
  from acquireOutput_call_fresh[OF None c]
  obtain pr where a0: "a0 = Awaiting pr" "pr \<noteq> Fulfilled None"
    and f0: "ctl w0 = ctl w" "outputs w0 = outputs w" "foreign w0 = foreign w"
      "requests w0 = Suc (requests w)"
    by blast
  from s1 a0 have s1': "acquireOutput_step rv p (Awaiting pr) w0 = (a1, w1)" by simp
  from acquireOutput_step_pending[OF s1' a0(2)] show ?thesis
  proof (elim disjE exE conjE)
    fix pr' assume a1: "a1 = Awaiting pr'" "pr' \<noteq> Fulfilled None"
      and f1: "ctl w1 = ctl w0" "outputs w1 = outputs w0" "foreign w1 = foreign w0"
        "requests w1 = requests w0"
    from s2 a1 have s2': "acquireOutput_step rv p (Awaiting pr') w1 = (a2, w2)" by simp
    from acquireOutput_step_pending[OF s2' a1(2)] r f0 f1 None show ?thesis by auto
  next
    fix e assume "a1 = Failed e" "w1 = w0"
    with s2 r f0 None show ?thesis by auto
  next
    assume "a1 = Resolved (Some (length (outputs w0)))"
      and "output_ref (ctl w1) = Some (length (outputs w0))"
      "volume (ctl w1) = volume (ctl w0)" "analysis (ctl w1) = analysis (ctl w0)"
      "sounds (ctl w1) = sounds (ctl w0)"
      "length (outputs w1) = Suc (length (outputs w0))"
      "gain_value (outputs w1 ! length (outputs w0)) = volume (ctl w0)"
      "requests w1 = requests w0"
    with s2 r f0 None show ?thesis by auto
  qed
qed

lemma acquireOutput_advance:
  "acquireOutput rv p w =
     (let (a, w') = advance rv p 2 (acquireOutput_call p w) in (outcome_of a, w'))"
  by (simp add: acquireOutput_def numeral_2_eq_2 split: prod.splits)

lemmas evaluation =
  acquireOutput_def acquireOutput_call_def acquireOutput_continue_def
  getSharedAudioContext_def getSharedAudioContext_resumed_def store_context_def
  update_output_def get_output_def new_Output_def Output_setVolume_def
  Output_connectAnalysis_def new_Controller_def pristine_def empty_object_def
  test_mock_def browser_def blocked_def no_web_audio_def requests_def Let_def


lemma acquireOutput_continue_attach:
  assumes "acquireOutput_continue Part_000 (Some c) w = (a, w')" and "truthy (analysis (ctl w))"
  shows "attachment (outputs w' ! length (outputs w)) = analysis (ctl w)"
  using assms
  by (auto simp: acquireOutput_continue_def Let_def update_output_def Output_setVolume_def
        Output_connectAnalysis_def new_Output_def nth_append)

lemma acquireOutput_step_continues:
  assumes "acquireOutput_step rv p (Awaiting pr) w = (Resolved r, w')" and "pr \<noteq> Fulfilled None"
  shows "\<exists>c. acquireOutput_continue rv (Some c) w = (Resolved r, w')"
proof (cases pr)
  case (Waiting_resume c)
  with assms show ?thesis by (auto split: prod.splits)
next
  case (Fulfilled x)
  with assms show ?thesis by (cases x) auto
next
  case (Rejected e)
  with assms show ?thesis by simp
qed

lemma acquireOutput_created:
  assumes "output_ref (ctl w) = None" and "acquireOutput rv p w = (Returned r, w')"
  shows "\<exists>c w0. ctl w0 = ctl w \<and> outputs w0 = outputs w
                \<and> acquireOutput_continue rv (Some c) w0 = (Resolved r, w')"
proof -
  obtain a0 w0 where c: "acquireOutput_call p w = (a0, w0)" by (cases "acquireOutput_call p w")
  obtain a1 w1 where s1: "acquireOutput_step rv p a0 w0 = (a1, w1)"
    by (cases "acquireOutput_step rv p a0 w0")
  obtain a2 w2 where s2: "acquireOutput_step rv p a1 w1 = (a2, w2)"
    by (cases "acquireOutput_step rv p a1 w1")
  from assms(2) c s1 s2 have "outcome_of a2 = Returned r" and w': "w' = w2"
    by (simp_all add: acquireOutput_def)
  then have a2: "a2 = Resolved r" by (cases a2) simp_all
  from acquireOutput_call_fresh[OF assms(1) c]
  obtain pr where a0: "a0 = Awaiting pr" "pr \<noteq> Fulfilled None"
    and f0: "ctl w0 = ctl w" "outputs w0 = outputs w"
    by blast
  from s1 a0 have s1': "acquireOutput_step rv p (Awaiting pr) w0 = (a1, w1)" by simp
  show ?thesis
  proof (cases a1)
    case (Awaiting pr')
    with acquireOutput_step_pending[OF s1' a0(2)]
    have p': "pr' \<noteq> Fulfilled None" and f1: "ctl w1 = ctl w0" "outputs w1 = outputs w0"
      by auto
    from s2 Awaiting a2 have "acquireOutput_step rv p (Awaiting pr') w1 = (Resolved r, w2)"
      by simp
    from acquireOutput_step_continues[OF this p'] f0 f1 w' show ?thesis by auto
  next
    case (Resolved x)
    with s2 a2 have "x = r" "w2 = w1" by simp_all
    with s1' Resolved have "acquireOutput_step rv p (Awaiting pr) w0 = (Resolved r, w2)" by simp
    from acquireOutput_step_continues[OF this a0(2)] f0 w' show ?thesis by auto
  next
    case (Failed e)
    with s2 a2 show ?thesis by simp
  qed
qed


section \<open>Two calls in flight\<close>

lemma race_inv_First:
  assumes "race_inv l (a1, a2, w)" and "acquireOutput_step rv p a1 w = (a1', w')"
  shows "race_inv l (a1', a2, w') \<and> requests w' = requests w"
proof (cases a1)
  case (Awaiting pr)
  with assms(1) have pr: "pr \<noteq> Fulfilled None" by (auto simp: race_inv_def)
  from assms(2) Awaiting have s: "acquireOutput_step rv p (Awaiting pr) w = (a1', w')" by simp
  from acquireOutput_step_pending[OF s pr] show ?thesis
  proof (elim disjE exE conjE)
    fix pr' assume "a1' = Awaiting pr'" "pr' \<noteq> Fulfilled None" "outputs w' = outputs w"
      "requests w' = requests w"
    with assms(1) Awaiting show ?thesis by (auto simp: race_inv_def split: option.splits)
  next
    fix e assume "a1' = Failed e" "w' = w"
    with assms(1) Awaiting show ?thesis by (auto simp: race_inv_def split: option.splits)
  next
    assume "a1' = Resolved (Some (length (outputs w)))"
      "length (outputs w') = Suc (length (outputs w))" "requests w' = requests w"
    with assms(1) Awaiting show ?thesis by (auto simp: race_inv_def split: option.splits)
  qed
next
  case (Resolved r)
  with assms show ?thesis by auto
next
  case (Failed e)
  with assms show ?thesis by auto
qed

lemma race_inv_Second:
  assumes "race_inv l (a1, a2, w)" and "acquireOutput_step rv p a2 w = (a2', w')"
  shows "race_inv l (a1, a2', w') \<and> requests w' = requests w"
proof (cases a2)
  case (Awaiting pr)
  with assms(1) have pr: "pr \<noteq> Fulfilled None" by (auto simp: race_inv_def)
  from assms(2) Awaiting have s: "acquireOutput_step rv p (Awaiting pr) w = (a2', w')" by simp
  from acquireOutput_step_pending[OF s pr] show ?thesis
  proof (elim disjE exE conjE)
    fix pr' assume "a2' = Awaiting pr'" "pr' \<noteq> Fulfilled None" "outputs w' = outputs w"
      "requests w' = requests w"
    with assms(1) Awaiting show ?thesis by (auto simp: race_inv_def split: option.splits)
  next
    fix e assume "a2' = Failed e" "w' = w"
    with assms(1) Awaiting show ?thesis by (auto simp: race_inv_def split: option.splits)
  next
    assume "a2' = Resolved (Some (length (outputs w)))"
      "length (outputs w') = Suc (length (outputs w))" "requests w' = requests w"
    with assms(1) Awaiting show ?thesis by (auto simp: race_inv_def split: option.splits)
  qed
next
  case (Resolved r)
  with assms show ?thesis by auto
next
  case (Failed e)
  with assms show ?thesis by auto
qed

lemma race_inv_interleave:
  assumes "race_inv l cfg" and "interleave rv p ts cfg = (b1, b2, w')"
  shows "race_inv l (b1, b2, w') \<and> requests w' = requests (snd (snd cfg))"
  using assms
proof (induction rv p ts cfg rule: interleave.induct)
  case (1 rv p cfg)
  then show ?case by simp
next
  case (2 rv p ts a1 a2 w)
  obtain a1' w1 where s: "acquireOutput_step rv p a1 w = (a1', w1)"
    by (cases "acquireOutput_step rv p a1 w")
  from race_inv_First[OF "2.prems"(1) s]
  have i: "race_inv l (a1', a2, w1)" and r: "requests w1 = requests w" by simp_all
  from "2.prems"(2) s have "interleave rv p ts (a1', a2, w1) = (b1, b2, w')" by simp
  from "2.IH"[OF s[symmetric] refl i this] r show ?case by simp
next
  case (3 rv p ts a1 a2 w)
  obtain a2' w1 where s: "acquireOutput_step rv p a2 w = (a2', w1)"
    by (cases "acquireOutput_step rv p a2 w")
  from race_inv_Second[OF "3.prems"(1) s]
  have i: "race_inv l (a1, a2', w1)" and r: "requests w1 = requests w" by simp_all
  from "3.prems"(2) s have "interleave rv p ts (a1, a2', w1) = (b1, b2, w')" by simp
  from "3.IH"[OF s[symmetric] refl i this] r show ?case by simp
qed

lemma advance_settled:
  "advance rv p n (Resolved r, w) = (Resolved r, w)"
  "advance rv p n (Failed e, w) = (Failed e, w)"
  by (induction n) simp_all

lemma advance_pending:
  assumes "advance rv p n (Awaiting pr, w) = (Awaiting pr', w')" and "pr \<noteq> Fulfilled None"
  shows "pr' \<noteq> Fulfilled None \<and> ctl w' = ctl w \<and> outputs w' = outputs w
         \<and> requests w' = requests w"
  using assms
proof (induction n arbitrary: pr w)
  case 0
  then show ?case by simp
next
  case (Suc n)
  obtain a w1 where s: "acquireOutput_step rv p (Awaiting pr) w = (a, w1)"
    by (cases "acquireOutput_step rv p (Awaiting pr) w")
  with Suc.prems(1) have adv: "advance rv p n (a, w1) = (Awaiting pr', w')" by simp
  from acquireOutput_step_pending[OF s Suc.prems(2)] show ?case
  proof (elim disjE exE conjE)
    fix pr1 assume a: "a = Awaiting pr1" "pr1 \<noteq> Fulfilled None"
      and f: "ctl w1 = ctl w" "outputs w1 = outputs w" "requests w1 = requests w"
    from adv a have "advance rv p n (Awaiting pr1, w1) = (Awaiting pr', w')" by simp
    from Suc.IH[OF this a(2)] f show ?case by simp
  next
    fix e assume "a = Failed e"
    with adv show ?case by (simp add: advance_settled)
  next
    assume "a = Resolved (Some (length (outputs w)))"
    with adv show ?case by (simp add: advance_settled)
  qed
qed


section \<open>Operations on a Controller that has its Output\<close>

lemma acquireOutput_call_existing:
  "output_ref (ctl w) = Some out \<Longrightarrow> acquireOutput_call p w = (Resolved (Some out), w)"
  by (simp add: acquireOutput_call_def)

lemma update_output_frame:
  "ctl (update_output out f w) = ctl w"
  "length (outputs (update_output out f w)) = length (outputs w)"
  by (simp_all add: update_output_def)

lemma Sound_play_frame:
  "ctl (snd (Sound_play v out w)) = ctl w" "outputs (snd (Sound_play v out w)) = outputs w"
  by (cases v; simp)+

lemma perform_keeps_output:
  assumes "output_ref (ctl w) = Some out"
  shows "output_ref (ctl (perform rv p r w)) = Some out
         \<and> length (outputs (perform rv p r w)) = length (outputs w)"
proof (cases r)
  case AcquireOutput
  with assms show ?thesis by (simp add: acquireOutput_existing)
next
  case (AddSound name v)
  with assms show ?thesis by (simp add: addSound_def)
next
  case (RemoveSound name)
  with assms show ?thesis by (simp add: removeSound_def)
next
  case (PlaySound name)
  with assms show ?thesis
    by (simp add: playSound_def Let_def acquireOutput_existing Sound_play_frame)
next
  case (SetVolume v)
  let ?w = "w\<lparr>ctl := (ctl w)\<lparr>volume := v\<rparr>\<rparr>"
  from assms have "output_ref (ctl ?w) = Some out" by simp
  from acquireOutput_existing[OF this] SetVolume assms show ?thesis
    by (simp add: setVolume_def update_output_frame)
next
  case (SetAnalysis node)
  with assms show ?thesis by (simp add: set_analysis_def update_output_frame)
qed

lemma perform_all_keeps_output:
  assumes "output_ref (ctl w) = Some out"
  shows "output_ref (ctl (perform_all rv rs w)) = Some out
         \<and> length (outputs (perform_all rv rs w)) = length (outputs w)"
  using assms
proof (induction rs arbitrary: w)
  case Nil
  then show ?case by simp
next
  case (Cons x rs)
  obtain p r where x: "x = (p, r)" by (cases x)
  from perform_keeps_output[OF Cons.prems, of rv p r]
  have k: "output_ref (ctl (perform rv p r w)) = Some out"
    and l: "length (outputs (perform rv p r w)) = length (outputs w)" by simp_all
  from Cons.IH[OF k] l x show ?case by simp
qed


section \<open>Lemmas about the registry\<close>

lemma map_of_put_own:
  "map_of (put_own name v ps) k = (if k = name then Some v else map_of ps k)"
  by (induction ps) auto


lemma set_object_keys: "set (object_keys obj) = fst ` set (own obj)"
  by (auto simp: object_keys_def)

lemma map_of_None_iff: "map_of ps k = None \<longleftrightarrow> k \<notin> fst ` set ps"
  by (simp add: map_of_eq_None_iff)

lemma proto_name_not_standard: "name \<notin> set object_prototype_names \<Longrightarrow> name \<noteq> ''__proto__''"
  by (auto simp: object_prototype_names_def)

lemma getSound_own:
  "map_of (own (sounds (ctl w))) name = Some v \<Longrightarrow> getSound name w = v"
  by (simp add: getSound_def get_property_def)

lemma getSound_unregistered:
  assumes "name \<notin> set (listSounds w)" and "proto (sounds (ctl w)) = Object_prototype"
    and "name \<notin> set object_prototype_names"
  shows "getSound name w = JUndefined"
proof -
  from assms(1) have "map_of (own (sounds (ctl w))) name = None"
    by (simp add: listSounds_def set_object_keys map_of_None_iff)
  with assms(2,3) show ?thesis by (simp add: getSound_def get_property_def)
qed


section \<open>Properties\<close>

text \<open>
  C10. A newly constructed Controller has stored volume exactly 1.0, which is not in the
  muted range \<open>volume \<le> 0\<close>, and an empty registry: \<^verbatim>\<open>listSounds()\<close> returns the empty
  list.
\<close>

theorem new_Controller_defaults:
  "volume (ctl (new_Controller w)) = 1
   \<and> \<not> volume (ctl (new_Controller w)) \<le> 0
   \<and> listSounds (new_Controller w) = []"
  by (simp add: new_Controller_def listSounds_def object_keys_def empty_object_def)


text \<open>
  C3 (as amended). Once a call of \<^verbatim>\<open>acquireOutput()\<close> has succeeded with no other call
  in flight, \<^verbatim>\<open>#output\<close> holds the Output it returned, and it keeps holding it through
  every sequence of later operations issued one after another (\<^verbatim>\<open>acquireOutput\<close>,
  \<^verbatim>\<open>addSound\<close>, \<^verbatim>\<open>removeSound\<close>, \<^verbatim>\<open>playSound\<close>, \<^verbatim>\<open>setVolume\<close>, setting the
  analysis node): no Output is constructed, and every later call of \<^verbatim>\<open>acquireOutput()\<close>,
  on whatever platform, resolves at once, without waiting, to the identical Output and
  leaves the world as it is.
\<close>

theorem acquireOutput_stable:
  assumes "acquireOutput rv p w = (Returned (Some out), w1)"
  shows "output_ref (ctl w1) = Some out
    \<and> output_ref (ctl (perform_all rv rs w1)) = Some out
    \<and> length (outputs (perform_all rv rs w1)) = length (outputs w1)
    \<and> acquireOutput_call p' (perform_all rv rs w1)
        = (Resolved (Some out), perform_all rv rs w1)
    \<and> acquireOutput rv p' (perform_all rv rs w1)
        = (Returned (Some out), perform_all rv rs w1)
    \<and> acquireOutput_repeatedly rv ps (perform_all rv rs w1)
        = (replicate (length ps) (Returned (Some out)), perform_all rv rs w1)"
proof -
  let ?w = "perform_all rv rs w1"
  from acquireOutput_cases[OF assms] have o: "output_ref (ctl w1) = Some out" by auto
  from perform_all_keeps_output[OF o, of rv rs]
  have k: "output_ref (ctl ?w) = Some out" and l: "length (outputs ?w) = length (outputs w1)"
    by simp_all
  have r: "acquireOutput_repeatedly rv ps ?w = (replicate (length ps) (Returned (Some out)), ?w)"
    by (induction ps) (simp_all add: acquireOutput_existing[OF k])
  from o k l r acquireOutput_call_existing[OF k, of p'] acquireOutput_existing[OF k, of rv p']
  show ?thesis by simp
qed

theorem acquireOutput_stable_witness:
  "fst (acquireOutput Part_000 test_mock pristine) = Returned (Some 0)
   \<and> output_ref (ctl (snd (acquireOutput Part_000 test_mock pristine))) = Some 0
   \<and> length (outputs (perform_all Part_000 session (snd (acquireOutput Part_000 test_mock pristine)))) = 1
   \<and> fst (acquireOutput Part_000 no_web_audio
        (perform_all Part_000 session (snd (acquireOutput Part_000 test_mock pristine))))
      = Returned (Some 0)
   \<and> trace (perform_all Part_000 session (snd (acquireOutput Part_000 test_mock pristine)))
      = [Context_requested, Context_created 0, Console_log 0, Output_created 0, Sound_played 7 0]"
proof -
  let ?w1 = "snd (acquireOutput Part_000 test_mock pristine)"
  have r: "fst (acquireOutput Part_000 test_mock pristine) = Returned (Some 0)"
    by (simp add: evaluation)
  then have h: "acquireOutput Part_000 test_mock pristine = (Returned (Some 0), ?w1)"
    by (metis prod.collapse)
  have l: "length (outputs ?w1) = 1" by (simp add: evaluation)
  have t: "trace (perform_all Part_000 session ?w1)
      = [Context_requested, Context_created 0, Console_log 0, Output_created 0, Sound_played 7 0]"
    by (simp add: session_def addSound_def removeSound_def playSound_def setVolume_def
          set_analysis_def get_property_def set_property_def delete_property_def evaluation)
  from acquireOutput_stable[OF h, of session no_web_audio "[]"] r l t show ?thesis by simp
qed

text \<open>
  The claim as stated fails when an earlier call is still in flight at the first success:
  of two calls issued back to back, the first resolves to Output 0 while the second is
  pending; the second then constructs Output 1 and stores it, and a later call returns
  Output 1. Two Outputs exist for the one Controller.
\<close>

theorem later_call_counterexample:
  "fst (two_calls Part_000 test_mock [First] pristine) = Resolved (Some 0)
   \<and> fst (snd (two_calls Part_000 test_mock [First] pristine)) = Awaiting (Fulfilled (Some 0))
   \<and> fst (snd (two_calls Part_000 test_mock [First, Second] pristine)) = Resolved (Some 1)
   \<and> fst (acquireOutput Part_000 test_mock
            (snd (snd (two_calls Part_000 test_mock [First, Second] pristine))))
       = Returned (Some 1)
   \<and> length (outputs (snd (snd (two_calls Part_000 test_mock [First, Second] pristine)))) = 2"
  by (simp add: two_calls_def evaluation)

text \<open>
  C5. With a stored volume of at most 0, \<^verbatim>\<open>playSound(name)\<close> returns at once for every
  name, registered or not: the world is unchanged, so no Sound is played and no Output
  acquisition is attempted.
\<close>

theorem playSound_muted:
  "volume (ctl w) \<le> 0 \<Longrightarrow> playSound rv p name w = (Returned (), w)"
  by (simp add: playSound_def)

theorem playSound_muted_witness:
  "volume (ctl (snd (setVolume Part_000 test_mock 0 (snd (addSound ''coin'' (JSound 7) pristine))))) \<le> 0
   \<and> playSound Part_000 test_mock ''coin''
        (snd (setVolume Part_000 test_mock 0 (snd (addSound ''coin'' (JSound 7) pristine))))
      = (Returned (), snd (setVolume Part_000 test_mock 0 (snd (addSound ''coin'' (JSound 7) pristine))))"
proof -
  have h: "volume (ctl (snd (setVolume Part_000 test_mock 0 (snd (addSound ''coin'' (JSound 7) pristine))))) \<le> 0"
    by (simp add: setVolume_def addSound_def evaluation)
  from playSound_muted[OF h] h show ?thesis by simp
qed



text \<open>
  C2. When the context cannot be created or resumed, \<^verbatim>\<open>getSharedAudioContext\<close> rejects,
  and the rejection propagates through every \<^verbatim>\<open>await\<close>: \<^verbatim>\<open>acquireOutput()\<close>,
  \<^verbatim>\<open>setVolume\<close> and \<^verbatim>\<open>playSound\<close> of a registered sound raise instead of yielding
  \<^verbatim>\<open>null\<close> or completing as no-ops. The claim itself is what the comment on
  \<^verbatim>\<open>acquireOutput\<close> promises ("returns null if not available").
\<close>

theorem acquisition_failure_raises:
  "fst (acquireOutput Part_000 no_web_audio pristine) = Raised TypeError
   \<and> fst (acquireOutput Part_000 blocked pristine) = Raised ResumeError
   \<and> fst (setVolume Part_000 no_web_audio (1/2) pristine) = Raised TypeError
   \<and> fst (playSound Part_000 no_web_audio ''coin'' (snd (addSound ''coin'' (JSound 7) pristine)))
       = Raised TypeError"
  by (simp add: setVolume_def playSound_def addSound_def get_property_def set_property_def evaluation)

text \<open>No call of \<^verbatim>\<open>acquireOutput()\<close> run alone ever returns \<^verbatim>\<open>null\<close>.\<close>

lemma acquireOutput_never_null: "fst (acquireOutput rv p w) \<noteq> Returned None"
  using acquireOutput_cases[of rv p w "fst (acquireOutput rv p w)" "snd (acquireOutput rv p w)"]
  by auto

text \<open>
  C6 (as amended). With a stored volume above 0, when the lookup \<^verbatim>\<open>this.#sounds[name]\<close>
  yields a falsy value (in particular when nothing is registered under \<open>name\<close> and
  \<open>name\<close> is not a property of \<^verbatim>\<open>Object.prototype\<close>), \<^verbatim>\<open>playSound(name)\<close> does not
  attempt Output acquisition: it only reports the miss as a warning and returns.
\<close>

theorem playSound_lookup_miss:
  assumes "0 < volume (ctl w)" and "\<not> truthy (getSound name w)"
  shows "playSound rv p name w
           = (Returned (), w\<lparr>trace := trace w @ [Console_warn (not_found name)]\<rparr>)"
  using assms by (simp add: playSound_def getSound_def)

theorem playSound_lookup_miss_witness:
  "0 < volume (ctl pristine) \<and> \<not> truthy (getSound ''missing'' pristine)
   \<and> playSound Controller_js browser ''missing'' pristine
       = (Returned (), pristine\<lparr>trace := trace pristine @ [Console_warn (not_found ''missing'')]\<rparr>)"
proof -
  have h1: "0 < volume (ctl pristine)" by (simp add: evaluation)
  have h2: "\<not> truthy (getSound ''missing'' pristine)"
    by (simp add: getSound_def get_property_def object_prototype_names_def evaluation)
  from playSound_lookup_miss[OF h1 h2] h1 h2 show ?thesis by simp
qed

text \<open>
  The claim as stated fails: on a new Controller (volume 1) \<^verbatim>\<open>playSound('missing')\<close>
  requests no context and creates no Output.
\<close>

theorem playSound_missing_counterexample:
  "0 < volume (ctl pristine)
   \<and> getSound ''missing'' pristine = JUndefined
   \<and> playSound Part_000 test_mock ''missing'' pristine
       = (Returned (), pristine\<lparr>trace := [Console_warn (not_found ''missing'')]\<rparr>)
   \<and> requests (snd (playSound Part_000 test_mock ''missing'' pristine)) = 0
   \<and> output_ref (ctl (snd (playSound Part_000 test_mock ''missing'' pristine))) = None"
  by (simp add: playSound_def getSound_def get_property_def object_prototype_names_def evaluation)

text \<open>
  C7 (as amended). On a registry that still inherits from \<^verbatim>\<open>Object.prototype\<close> and
  holds only truthy values (as every Sound object is), for a name that is not a property
  of \<^verbatim>\<open>Object.prototype\<close>: \<^verbatim>\<open>removeSound(name)\<close> returns true exactly when an entry
  for \<open>name\<close> was present, afterwards \<^verbatim>\<open>listSounds()\<close> excludes \<open>name\<close>, an absent name
  gives false and changes nothing, and a truthy value stored by \<^verbatim>\<open>addSound(name, v)\<close>
  is removed in this way.
\<close>

theorem removeSound_reports_truthy_entries:
  assumes "proto (sounds (ctl w)) = Object_prototype"
    and "name \<notin> set object_prototype_names"
    and "list_all (\<lambda>entry. truthy (snd entry)) (own (sounds (ctl w)))"
  shows "fst (removeSound name w) = (name \<in> set (listSounds w))
    \<and> name \<notin> set (listSounds (snd (removeSound name w)))
    \<and> (if name \<in> set (listSounds w) then True else removeSound name w = (False, w))
    \<and> (if truthy v then fst (removeSound name (snd (addSound name v w)))
          \<and> name \<notin> set (listSounds (snd (removeSound name (snd (addSound name v w)))))
        else True)"
proof -
  have del: "\<And>w'. name \<notin> set (listSounds (w'\<lparr>ctl := (ctl w')\<lparr>sounds := delete_property (sounds (ctl w')) name\<rparr>\<rparr>))"
    by (auto simp: listSounds_def set_object_keys delete_property_def)
  have a: "fst (removeSound name w) = (name \<in> set (listSounds w))"
  proof (cases "map_of (own (sounds (ctl w))) name")
    case None
    then have "name \<notin> set (listSounds w)"
      by (simp add: listSounds_def set_object_keys map_of_None_iff)
    with getSound_unregistered[OF this assms(1,2)] show ?thesis
      by (simp add: removeSound_def getSound_def)
  next
    case (Some u)
    then have m: "(name, u) \<in> set (own (sounds (ctl w)))" by (rule map_of_SomeD)
    with assms(3) have "truthy u" by (auto simp: list_all_iff)
    moreover from m have "name \<in> set (listSounds w)"
      by (force simp: listSounds_def set_object_keys)
    ultimately show ?thesis using getSound_own[OF Some]
      by (simp add: removeSound_def getSound_def)
  qed
  have b: "name \<notin> set (listSounds (snd (removeSound name w)))"
  proof (cases "fst (removeSound name w)")
    case True
    then show ?thesis using del[of w] by (auto simp: removeSound_def split: if_splits)
  next
    case False
    with a show ?thesis by (auto simp: removeSound_def split: if_splits)
  qed
  have c: "name \<notin> set (listSounds w) \<Longrightarrow> removeSound name w = (False, w)"
    using a by (auto simp: removeSound_def split: if_splits)
  have d: "truthy v \<Longrightarrow> fst (removeSound name (snd (addSound name v w)))
          \<and> name \<notin> set (listSounds (snd (removeSound name (snd (addSound name v w)))))"
  proof -
    assume t: "truthy v"
    let ?w = "snd (addSound name v w)"
    from proto_name_not_standard[OF assms(2)]
    have "map_of (own (sounds (ctl ?w))) name = Some v"
      by (simp add: addSound_def set_property_def map_of_put_own)
    from getSound_own[OF this] t have r: "fst (removeSound name ?w)"
      by (simp add: removeSound_def getSound_def)
    then show ?thesis using del[of ?w] by (auto simp: removeSound_def split: if_splits)
  qed
  from a b c d show ?thesis by simp
qed

theorem removeSound_witness:
  "proto (sounds (ctl (snd (addSound ''jump'' (JSound 3) pristine)))) = Object_prototype
   \<and> ''coin'' \<notin> set object_prototype_names
   \<and> list_all (\<lambda>entry. truthy (snd entry)) (own (sounds (ctl (snd (addSound ''jump'' (JSound 3) pristine)))))
   \<and> fst (removeSound ''coin'' (snd (addSound ''coin'' (JSound 7) (snd (addSound ''jump'' (JSound 3) pristine)))))
   \<and> fst (removeSound ''coin'' (snd (addSound ''jump'' (JSound 3) pristine))) = False"
proof -
  let ?w = "snd (addSound ''jump'' (JSound 3) pristine)"
  have h1: "proto (sounds (ctl ?w)) = Object_prototype"
    by (simp add: addSound_def set_property_def evaluation)
  have h2: "''coin'' \<notin> set object_prototype_names" by (simp add: object_prototype_names_def)
  have h3: "list_all (\<lambda>entry. truthy (snd entry)) (own (sounds (ctl ?w)))"
    by (simp add: addSound_def set_property_def evaluation)
  have n: "''coin'' \<notin> set (listSounds ?w)"
    by (simp add: addSound_def set_property_def listSounds_def object_keys_def is_array_index_def
        is_digit_def evaluation)
  from removeSound_reports_truthy_entries[OF h1 h2 h3, of "JSound 7"] n h1 h2 h3
  show ?thesis by simp
qed

text \<open>
  The claim as stated fails twice: a falsy value stored via \<^verbatim>\<open>addSound\<close> is neither
  reported nor deleted, and \<^verbatim>\<open>removeSound('constructor')\<close> returns true on an empty
  registry because the lookup finds the inherited property.
\<close>

theorem removeSound_counterexample:
  "listSounds (snd (addSound ''coin'' (JNum 0) pristine)) = [''coin'']
   \<and> removeSound ''coin'' (snd (addSound ''coin'' (JNum 0) pristine))
       = (False, snd (addSound ''coin'' (JNum 0) pristine))
   \<and> listSounds (snd (removeSound ''coin'' (snd (addSound ''coin'' (JNum 0) pristine)))) = [''coin'']
   \<and> listSounds pristine = []
   \<and> fst (removeSound ''constructor'' pristine) = True"
  by (simp add: removeSound_def addSound_def listSounds_def object_keys_def get_property_def
        set_property_def delete_property_def is_array_index_def is_digit_def
        object_prototype_names_def evaluation)

text \<open>
  C9. In the revision with the setter, \<^verbatim>\<open>controller.analysis = node\<close> stores the node;
  if an Output exists the node is connected to it at once; and when \<^verbatim>\<open>acquireOutput()\<close>
  creates the Output later, the node set before (an object, hence truthy) is attached to
  the new Output.
\<close>

theorem analysis_attached:
  "analysis (ctl (set_analysis node w)) = node
   \<and> (output_ref (ctl w) = Some out \<and> get_output w out \<noteq> None
        \<longrightarrow> map_option attachment (get_output (set_analysis node w) out) = Some node)
   \<and> (output_ref (ctl w) = None \<and> truthy node
        \<and> acquireOutput Part_000 p (set_analysis node w) = (Returned (Some new), w')
        \<longrightarrow> output_ref (ctl w') = Some new
            \<and> map_option attachment (get_output w' new) = Some node)"
proof (intro conjI impI)
  show "analysis (ctl (set_analysis node w)) = node"
    by (simp add: set_analysis_def Let_def update_output_def split: option.splits)
next
  assume "output_ref (ctl w) = Some out \<and> get_output w out \<noteq> None"
  then show "map_option attachment (get_output (set_analysis node w) out) = Some node"
    by (auto simp: set_analysis_def Let_def update_output_def get_output_def
          Output_connectAnalysis_def split: if_splits)
next
  assume h: "output_ref (ctl w) = None \<and> truthy node
        \<and> acquireOutput Part_000 p (set_analysis node w) = (Returned (Some new), w')"
  let ?w = "set_analysis node w"
  from h have s: "?w = w\<lparr>ctl := (ctl w)\<lparr>analysis := node\<rparr>\<rparr>"
    by (simp add: set_analysis_def)
  then have n: "output_ref (ctl ?w) = None" and an: "analysis (ctl ?w) = node"
    and os: "outputs ?w = outputs w" using h by simp_all
  from h have a: "acquireOutput Part_000 p ?w = (Returned (Some new), w')" by simp
  from acquireOutput_created[OF n a] obtain c w0 where
    f: "ctl w0 = ctl ?w" "outputs w0 = outputs ?w"
    and k: "acquireOutput_continue Part_000 (Some c) w0 = (Resolved (Some new), w')"
    by blast
  from acquireOutput_continue_Some[OF k]
  have new: "new = length (outputs w0)" and o: "output_ref (ctl w') = Some (length (outputs w0))"
    and l: "length (outputs w') = Suc (length (outputs w0))" by simp_all
  from h f an have "truthy (analysis (ctl w0))" by simp
  from acquireOutput_continue_attach[OF k this] f an
  have "attachment (outputs w' ! length (outputs w0)) = node" by simp
  with new l show "map_option attachment (get_output w' new) = Some node"
    by (simp add: get_output_def)
  from o new show "output_ref (ctl w') = Some new" by simp
qed

theorem analysis_attached_witness:
  "output_ref (ctl pristine) = None \<and> truthy (JObject 5)
   \<and> fst (acquireOutput Part_000 browser (set_analysis (JObject 5) pristine)) = Returned (Some 0)
   \<and> map_option attachment
        (get_output (snd (acquireOutput Part_000 browser (set_analysis (JObject 5) pristine))) 0)
       = Some (JObject 5)
   \<and> output_ref (ctl (snd (acquireOutput Part_000 browser pristine))) = Some 0
   \<and> get_output (snd (acquireOutput Part_000 browser pristine)) 0 \<noteq> None
   \<and> map_option attachment
        (get_output (set_analysis (JObject 6) (snd (acquireOutput Part_000 browser pristine))) 0)
       = Some (JObject 6)"
proof -
  let ?w1 = "set_analysis (JObject 5) pristine"
  let ?w2 = "snd (acquireOutput Part_000 browser ?w1)"
  let ?w3 = "snd (acquireOutput Part_000 browser pristine)"
  have h1: "output_ref (ctl pristine) = None" by (simp add: evaluation)
  have r: "fst (acquireOutput Part_000 browser ?w1) = Returned (Some 0)"
    by (simp add: set_analysis_def evaluation)
  then have h2: "acquireOutput Part_000 browser ?w1 = (Returned (Some 0), ?w2)"
    by (metis prod.collapse)
  have h3: "output_ref (ctl ?w3) = Some 0" by (simp add: evaluation)
  have h4: "get_output ?w3 0 \<noteq> None" by (simp add: evaluation)
  from analysis_attached[of "JObject 5" pristine 0 browser 0 ?w2] h1 h2
  have a: "map_option attachment (get_output ?w2 0) = Some (JObject 5)" by simp
  from analysis_attached[of "JObject 6" ?w3 0 browser 0 ?w3] h3 h4
  have b: "map_option attachment (get_output (set_analysis (JObject 6) ?w3) 0) = Some (JObject 6)"
    by blast
  from h1 r a h3 h4 b show ?thesis by simp
qed

text \<open>
  C8. \<^verbatim>\<open>dispose()\<close> never raises, with or without an Output; it invokes the registered
  \<^verbatim>\<open>onOutputDisposed\<close> callback once if an Output was live and not otherwise; a second
  call right after it changes nothing and invokes no callback.
\<close>

theorem dispose_idempotent:
  "fst (dispose cb w) = Returned ()
   \<and> dispose cb (snd (dispose cb w)) = (Returned (), snd (dispose cb w))
   \<and> output_ref (ctl (snd (dispose cb w))) = None
   \<and> disposals (snd (dispose cb w))
       = disposals w + (if cb \<and> output_ref (ctl w) \<noteq> None then 1 else 0)
   \<and> disposals (snd (dispose cb (snd (dispose cb w)))) = disposals (snd (dispose cb w))"
  by (auto simp: dispose_def disposals_def Let_def split: option.splits)

text \<open>
  C1 (as amended). \<^verbatim>\<open>acquireOutput\<close> keeps no record of a call in flight. When a second
  call is issued while the first is still pending (after any number of turns of the
  first), each call requests the context for itself, and whenever both resolve to an
  Output, whatever the order of their turns, two Outputs have been constructed and the
  two calls resolve to different Outputs.
\<close>

theorem concurrent_calls_construct_two:
  assumes "output_ref (ctl w) = None"
    and "advance rv p n (acquireOutput_call p w) = (Awaiting pr, w1)"
    and "acquireOutput_call p w1 = (a2, w2)"
    and "interleave rv p ts (Awaiting pr, a2, w2) = (Resolved (Some o1), Resolved (Some o2), w')"
  shows "requests w' = requests w + 2 \<and> length (outputs w') = length (outputs w) + 2 \<and> o1 \<noteq> o2"
proof -
  obtain a0 w0 where c: "acquireOutput_call p w = (a0, w0)" by (cases "acquireOutput_call p w")
  from acquireOutput_call_fresh[OF assms(1) c]
  obtain pr0 where a0: "a0 = Awaiting pr0" "pr0 \<noteq> Fulfilled None"
    and f0: "ctl w0 = ctl w" "outputs w0 = outputs w" "requests w0 = Suc (requests w)"
    by blast
  from assms(2) c a0 have "advance rv p n (Awaiting pr0, w0) = (Awaiting pr, w1)" by simp
  from advance_pending[OF this a0(2)] f0
  have pr: "pr \<noteq> Fulfilled None" and f1: "ctl w1 = ctl w" "outputs w1 = outputs w"
    "requests w1 = Suc (requests w)" by simp_all
  from f1 assms(1) have n1: "output_ref (ctl w1) = None" by simp
  from acquireOutput_call_fresh[OF n1 assms(3)] f1
  obtain pr2 where a2: "a2 = Awaiting pr2" "pr2 \<noteq> Fulfilled None"
    and f2: "outputs w2 = outputs w" "requests w2 = Suc (Suc (requests w))"
    by auto
  from pr a2 f2 have "race_inv (length (outputs w)) (Awaiting pr, a2, w2)"
    by (simp add: race_inv_def)
  from race_inv_interleave[OF this assms(4)] f2 show ?thesis
    by (simp add: race_inv_def)
qed

theorem concurrent_calls_witness:
  "output_ref (ctl pristine) = None
   \<and> first_pending = (Awaiting (Waiting_resume 0), snd first_pending)
   \<and> race_end = (Resolved (Some 0), Resolved (Some 1), snd (snd race_end))
   \<and> requests (snd (snd race_end)) = requests pristine + 2
   \<and> length (outputs (snd (snd race_end))) = length (outputs pristine) + 2
   \<and> (0::nat) \<noteq> 1"
proof -
  have h1: "output_ref (ctl pristine) = None" by (simp add: evaluation)
  have ff: "fst first_pending = Awaiting (Waiting_resume 0)"
    by (simp add: first_pending_def evaluation)
  then have f: "first_pending = (Awaiting (Waiting_resume 0), snd first_pending)"
    by (metis prod.collapse)
  then have h2: "advance Part_000 browser 0 (acquireOutput_call browser pristine)
      = (Awaiting (Waiting_resume 0), snd first_pending)"
    by (simp add: first_pending_def)
  have h3: "acquireOutput_call browser (snd first_pending)
      = (fst second_issued, snd second_issued)"
    by (simp add: second_issued_def)
  have "fst race_end = Resolved (Some 0) \<and> fst (snd race_end) = Resolved (Some 1)"
    by (simp add: race_end_def second_issued_def first_pending_def evaluation)
  then have e: "race_end = (Resolved (Some 0), Resolved (Some 1), snd (snd race_end))"
    by (metis prod.collapse)
  have "interleave Part_000 browser [First, Second, First, Second]
        (Awaiting (Waiting_resume 0), fst second_issued, snd second_issued) = race_end"
    unfolding race_end_def ff[symmetric] by simp
  also note e
  finally have h4: "interleave Part_000 browser [First, Second, First, Second]
        (Awaiting (Waiting_resume 0), fst second_issued, snd second_issued)
      = (Resolved (Some 0), Resolved (Some 1), snd (snd race_end))" .
  from concurrent_calls_construct_two[OF h1 h2 h3 h4]
  have "requests (snd (snd race_end)) = requests pristine + 2
      \<and> length (outputs (snd (snd race_end))) = length (outputs pristine) + 2
      \<and> (0::nat) \<noteq> 1" .
  with h1 f e show ?thesis by blast
qed

text \<open>
  The claim as stated fails: with the running context of the test-suite, two calls issued
  back to back are both pending, request the context twice and construct two Outputs;
  the first resolves to Output 0 and the second to Output 1.
\<close>

theorem concurrent_calls_counterexample:
  "fst (two_calls Part_000 test_mock [] pristine) = Awaiting (Fulfilled (Some 0))
   \<and> fst (snd (two_calls Part_000 test_mock [] pristine)) = Awaiting (Fulfilled (Some 0))
   \<and> fst (two_calls Part_000 test_mock [First, Second] pristine) = Resolved (Some 0)
   \<and> fst (snd (two_calls Part_000 test_mock [First, Second] pristine)) = Resolved (Some 1)
   \<and> length (outputs (snd (snd (two_calls Part_000 test_mock [First, Second] pristine)))) = 2
   \<and> requests (snd (snd (two_calls Part_000 test_mock [First, Second] pristine))) = 2"
  by (simp add: two_calls_def evaluation)

end
